theory Spec2Isabelle
  imports Complex_Main "HOL-Library.Product_Lexorder"
begin

section \<open>Python strings\<close>

text \<open>
  A Python \<open>str\<close> is a sequence of Unicode code points: \<open>len\<close> counts code points,
  slicing and \<open>startswith\<close> work on them. A string is therefore a list of code points
  (natural numbers), not of bytes. ASCII literals are written through \<open>asc\<close>; the two
  non-ASCII characters of the sources are U+2122 (trade mark sign, 8482) and U+2605
  (black star, 9733).
\<close>

type_synonym ustr = "nat list"

definition asc :: "string \<Rightarrow> ustr" where
  "asc s = map of_char s"

text \<open>
  The characters that \<open>str.strip()\<close> removes and that \<open>\s\<close> matches in a \<open>str\<close>
  pattern: the Unicode white space of CPython.
\<close>

definition is_space :: "nat \<Rightarrow> bool" where
  "is_space c \<longleftrightarrow>
     (9 \<le> c \<and> c \<le> 13) \<or> (28 \<le> c \<and> c \<le> 32) \<or> c = 133 \<or> c = 160 \<or> c = 5760 \<or>
     (8192 \<le> c \<and> c \<le> 8202) \<or> c = 8232 \<or> c = 8233 \<or> c = 8239 \<or> c = 8287 \<or> c = 12288"

definition lstrip :: "ustr \<Rightarrow> ustr" where
  "lstrip s = dropWhile is_space s"

definition rstrip :: "ustr \<Rightarrow> ustr" where
  "rstrip s = rev (dropWhile is_space (rev s))"

definition strip :: "ustr \<Rightarrow> ustr" where
  "strip s = rstrip (lstrip s)"

fun startswith :: "ustr \<Rightarrow> ustr \<Rightarrow> bool" where
  "startswith s [] = True"
| "startswith [] (p # ps) = False"
| "startswith (c # cs) (p # ps) = (c = p \<and> startswith cs ps)"

text \<open>\<open>contains s t\<close> is Python's \<open>t in s\<close>: \<open>t\<close> occurs in \<open>s\<close> as a contiguous run.\<close>

fun contains :: "ustr \<Rightarrow> ustr \<Rightarrow> bool" where
  "contains [] t = (t = [])"
| "contains (c # cs) t = (startswith (c # cs) t \<or> contains cs t)"

text \<open>\<open>s.rfind(ch)\<close> for a single character: the last index of \<open>ch\<close>, or \<open>-1\<close>.\<close>

fun rfind :: "ustr \<Rightarrow> nat \<Rightarrow> int" where
  "rfind [] ch = - 1"
| "rfind (c # cs) ch =
     (let r = rfind cs ch in if r \<ge> 0 then r + 1 else if c = ch then 0 else - 1)"

section \<open>Identifier parser (app.py)\<close>

definition WEARS :: "ustr list" where
  "WEARS = [asc ''Factory New'', asc ''Minimal Wear'', asc ''Field-Tested'',
            asc ''Well-Worn'', asc ''Battle-Scarred'']"

definition STATTRAK_PREFIX :: ustr where
  "STATTRAK_PREFIX = asc ''StatTrak'' @ [8482, 32]"

definition SOUVENIR_PREFIX :: ustr where
  "SOUVENIR_PREFIX = asc ''Souvenir ''"

text \<open>
  The regular expression of \<open>parse_market_hash_name\<close>,
  \<^verbatim>\<open>\s\((Factory New|Minimal Wear|Field-Tested|Well-Worn|Battle-Scarred)\)\s*$\<close>.
  \<open>wear_match_here s\<close> matches it at the start of \<open>s\<close>: one white-space character, an
  opening parenthesis, the first alternative (in the order written) that is followed by a
  closing parenthesis and by white space only up to the end. (\<open>$\<close> also matches before a
  final newline, which \<open>\s*\<close> has consumed by then, so "white space only" is exact.)
  \<open>re_search_wear\<close> is \<open>re.search\<close>: the leftmost position with a match, returned as
  \<open>(m.start(), m.group(1))\<close>.
\<close>

definition wear_match_here :: "ustr \<Rightarrow> ustr option" where
  "wear_match_here s =
     (case s of
        c # c' # rest \<Rightarrow>
          if is_space c \<and> c' = 40
          then List.find (\<lambda>w. startswith rest (w @ [41]) \<and>
                                list_all is_space (drop (length w + 1) rest)) WEARS
          else None
      | _ \<Rightarrow> None)"

fun re_search_wear :: "ustr \<Rightarrow> (nat \<times> ustr) option" where
  "re_search_wear [] = None"
| "re_search_wear (c # cs) =
     (case wear_match_here (c # cs) of
        Some w \<Rightarrow> Some (0, w)
      | None \<Rightarrow> map_option (\<lambda>(i, w). (Suc i, w)) (re_search_wear cs))"

record parsed_name =
  market_hash_name :: ustr
  is_stattrak :: bool
  is_souvenir :: bool
  base_name :: ustr
  wear :: "ustr option"

definition parse_market_hash_name :: "ustr \<Rightarrow> parsed_name" where
  "parse_market_hash_name mh0 =
     (let mh = strip mh0;
          is_st = startswith mh STATTRAK_PREFIX;
          is_souv = startswith mh SOUVENIR_PREFIX;
          name = mh;
          name = (if is_st then drop (length STATTRAK_PREFIX) name else name);
          name = (if is_souv then drop (length SOUVENIR_PREFIX) name else name)
      in case re_search_wear name of
           Some (start, w) \<Rightarrow>
             \<lparr>market_hash_name = mh, is_stattrak = is_st, is_souvenir = is_souv,
              base_name = strip (take start name), wear = Some w\<rparr>
         | None \<Rightarrow>
             \<lparr>market_hash_name = mh, is_stattrak = is_st, is_souvenir = is_souv,
              base_name = strip name, wear = None\<rparr>)"

definition build_market_hash_name :: "ustr \<Rightarrow> ustr \<Rightarrow> bool \<Rightarrow> ustr" where
  "build_market_hash_name base_name0 wear0 stattrak =
     (let base_name = strip base_name0;
          wear = strip wear0;
          mh = base_name @ asc '' ('' @ wear @ asc '')''
      in if stattrak then STATTRAK_PREFIX @ mh else mh)"

section \<open>Fuzzy catalog matcher (src/market_clients.py)\<close>

text \<open>
  Prices are Python floats; the model takes the finite ones, as the real numbers they
  denote. A value read from a decoded JSON record where a number is expected is
  \<open>None\<close>, a value that \<open>float()\<close> accepts (written as the number it converts to), or
  any other value, on which \<open>float()\<close> raises.
\<close>

datatype pyval = PyNone | PyNum real | PyOther

datatype py_error = KeyError | TypeError | AttributeError

definition py_float :: "pyval \<Rightarrow> py_error + real" where
  "py_float v = (case v of PyNum r \<Rightarrow> Inr r | PyNone \<Rightarrow> Inl TypeError | PyOther \<Rightarrow> Inl TypeError)"

text \<open>
  A catalog record, as far as the matcher reads it: \<open>it.get("market_hash_name")\<close>
  (\<open>None\<close> when the key is missing or null) and \<open>it.get("min_price")\<close>.
\<close>

record item =
  it_market_hash_name :: "ustr option"
  it_min_price :: pyval

text \<open>
  \<open>str.lower()\<close> is the Unicode lower-casing of the Python runtime. It is a parameter
  \<open>lower\<close> of every function that calls it; \<open>ascii_lower\<close> is what it computes on ASCII
  strings, and is used to run the model on concrete inputs.
\<close>

definition ascii_lower :: "ustr \<Rightarrow> ustr" where
  "ascii_lower s = map (\<lambda>c. if 65 \<le> c \<and> c \<le> 90 then c + 32 else c) s"

text \<open>\<open>_norm\<close>: \<open>(s or "").strip().lower()\<close>.\<close>

definition norm_str :: "(ustr \<Rightarrow> ustr) \<Rightarrow> ustr option \<Rightarrow> ustr" where
  "norm_str lower s = lower (strip (case s of None \<Rightarrow> [] | Some x \<Rightarrow> x))"

text \<open>\<open>_simplify\<close>: drop every U+2605, trim, and cut at the last opening parenthesis when
  both kinds of parenthesis occur.\<close>

definition simplify :: "ustr \<Rightarrow> ustr" where
  "simplify s =
     (let t = strip (filter (\<lambda>c. c \<noteq> 9733) s)
      in if 40 \<in> set t \<and> 41 \<in> set t then strip (take (nat (rfind t 40)) t) else t)"

definition match_score :: "ustr \<Rightarrow> ustr \<Rightarrow> int" where
  "match_score target candidate =
     (if candidate = target then 100
      else
        let score = 0;
            score = (if startswith candidate target then score + 50 else score);
            score = (if contains candidate target then score + 30 else score)
        in score - \<bar>int (length candidate) - int (length target)\<bar> div 2)"

type_synonym candidate = "real \<times> ustr \<times> int"

text \<open>The body of the loop over the catalog: one record, and the candidates so far.\<close>

definition match_item ::
  "(ustr \<Rightarrow> ustr) \<Rightarrow> ustr \<Rightarrow> ustr \<Rightarrow> item \<Rightarrow> candidate list \<Rightarrow> candidate list" where
  "match_item lower target target_simple it candidates =
     (let mh = norm_str lower (it_market_hash_name it);
          mp = it_min_price it;
          val = (if mp \<noteq> PyNone
                 then (case py_float mp of Inr v \<Rightarrow> Some v | Inl e \<Rightarrow> None)
                 else None)
      in case val of
           None \<Rightarrow> candidates
         | Some v \<Rightarrow>
             if mh = target then candidates @ [(v, asc ''exact match: '' @ mh, 100)]
             else if target_simple \<noteq> [] \<and> contains mh target_simple
             then candidates @ [(v, asc ''partial match: '' @ mh, match_score target_simple mh)]
             else candidates)"

definition collect_candidates ::
  "(ustr \<Rightarrow> ustr) \<Rightarrow> item list \<Rightarrow> ustr \<Rightarrow> candidate list" where
  "collect_candidates lower items mhn =
     (let target = norm_str lower (Some mhn);
          target_simple = norm_str lower (Some (simplify mhn))
      in fold (match_item lower target target_simple) items [])"

text \<open>\<open>candidates.sort(key=lambda x: (x[0], -x[2]))\<close>: a stable sort on the pair, compared
  lexicographically.\<close>

definition sort_candidates :: "candidate list \<Rightarrow> candidate list" where
  "sort_candidates candidates = sort_key (\<lambda>(v, reason, score). (v, - score)) candidates"

definition skinport_find_min_price_usd ::
  "(ustr \<Rightarrow> ustr) \<Rightarrow> item list \<Rightarrow> ustr \<Rightarrow> bool \<Rightarrow> real option \<times> ustr option" where
  "skinport_find_min_price_usd lower items mhn debug =
     (let candidates = collect_candidates lower items mhn
      in if candidates = [] then (None, Some (asc ''no candidates''))
         else
           let (best_val, best_reason, best_score) = hd (sort_candidates candidates)
           in (Some best_val, if debug then Some best_reason else None))"

subsection \<open>A small catalog\<close>

text \<open>
  The catalog of the specification's example, for the target \<open>Foo (Field-Tested)\<close>: an
  exact match at 10.00 and a partial match at 5.00; and two further records, the same name
  in lower case at 3.00 and the bare name \<open>Foo\<close> at 5.00.
\<close>

definition example_target :: ustr where
  "example_target = asc ''Foo (Field-Tested)''"

definition example_exact :: item where
  "example_exact =
     \<lparr>it_market_hash_name = Some (asc ''Foo (Field-Tested)''), it_min_price = PyNum 10\<rparr>"

definition example_partial :: item where
  "example_partial =
     \<lparr>it_market_hash_name = Some (asc ''Foo (Field-Tested) Special''), it_min_price = PyNum 5\<rparr>"

definition example_exact_cheap :: item where
  "example_exact_cheap =
     \<lparr>it_market_hash_name = Some (asc ''foo (field-tested)''), it_min_price = PyNum 3\<rparr>"

definition example_bare :: item where
  "example_bare = \<lparr>it_market_hash_name = Some (asc ''Foo''), it_min_price = PyNum 5\<rparr>"

section \<open>Fee model (src/fees.py)\<close>

text \<open>The fee configuration: a dictionary of dictionaries, down to the rates.\<close>

type_synonym fees_cfg = "ustr \<rightharpoonup> (ustr \<rightharpoonup> (ustr \<rightharpoonup> real))"

definition apply_buyer_total_usd :: "ustr \<Rightarrow> real \<Rightarrow> fees_cfg \<Rightarrow> py_error + real" where
  "apply_buyer_total_usd market listing_price_usd cfg =
     (case cfg (asc ''market_fees'') of
        None \<Rightarrow> Inl KeyError
      | Some fees \<Rightarrow>
          let mf = (case fees market of None \<Rightarrow> Map.empty | Some m \<Rightarrow> m)
          in if market = asc ''steam'' then Inr listing_price_usd
             else if market = asc ''skinport'' \<or> market = asc ''skinbaron''
             then
               let extra = (case mf (asc ''buyer_extra_rate'') of None \<Rightarrow> 0 | Some e \<Rightarrow> e)
               in Inr (listing_price_usd * (1 + extra))
             else Inr listing_price_usd)"

definition apply_seller_net_usd :: "ustr \<Rightarrow> real \<Rightarrow> fees_cfg \<Rightarrow> py_error + real" where
  "apply_seller_net_usd market listing_price_usd cfg =
     (case cfg (asc ''market_fees'') of
        None \<Rightarrow> Inl KeyError
      | Some fees \<Rightarrow>
          let mf = (case fees market of None \<Rightarrow> Map.empty | Some m \<Rightarrow> m)
          in if market = asc ''steam'' then
               let rate = (case mf (asc ''seller_fee_rate'') of None \<Rightarrow> 0.15 | Some r \<Rightarrow> r)
               in Inr (listing_price_usd * (1 - rate))
             else if market = asc ''skinport'' then
               let rate = (case mf (asc ''seller_fee_rate'') of None \<Rightarrow> 0.12 | Some r \<Rightarrow> r)
               in Inr (listing_price_usd * (1 - rate))
             else if market = asc ''skinbaron'' then
               let rate = (case mf (asc ''seller_fee_rate'') of None \<Rightarrow> 0.10 | Some r \<Rightarrow> r)
               in Inr (listing_price_usd * (1 - rate))
             else Inr listing_price_usd)"

section \<open>Price display normalizer (src/normalizer.py)\<close>

datatype display = Text ustr | Num real

text \<open>The \<open>try\<close> block catches what \<open>float()\<close> raises and returns \<open>None\<close>.\<close>

definition enforce_scm_cap_display :: "pyval \<Rightarrow> real \<Rightarrow> display option" where
  "enforce_scm_cap_display price_usd usd_cap =
     (if price_usd = PyNone then None
      else case py_float price_usd of
             Inl e \<Rightarrow> None
           | Inr p \<Rightarrow> Some (if p > usd_cap then Text (asc ''exceeds limit'') else Num p))"

section \<open>Comparison run (app.py, "Run check")\<close>

text \<open>
  One row of the result table. \<open>match_debug\<close> is a column only when the debug toggle is on:
  the outer \<open>None\<close> is the missing key.
\<close>

record row =
  row_base_name :: ustr
  row_wear :: "ustr option"
  row_stattrak :: bool
  row_market_hash_name :: ustr
  steam_usd :: "real option"
  skinport_min_usd :: "real option"
  spread_usd :: "real option"
  match_debug :: "ustr option option"

text \<open>
  \<open>steam_get_price_usd\<close> asks the network and catches every exception: whatever happens,
  it returns a price or \<open>None\<close>. It is a parameter \<open>steam\<close> that reads and changes the
  state \<open>'w\<close> of the outside world, so that two calls may answer differently. The body
  of the loop builds a row and appends it to \<open>rows_out\<close>; the progress bar and the pause
  between calls do not touch the rows. The rows are then handed to pandas, which orders
  the table for display; that ordering is the library's and is not modelled here.
\<close>

fun run_check_loop ::
  "(ustr \<Rightarrow> ustr) \<Rightarrow> ('w \<Rightarrow> ustr \<Rightarrow> real option \<times> 'w) \<Rightarrow> item list \<Rightarrow> bool \<Rightarrow>
     ustr list \<Rightarrow> 'w \<Rightarrow> row list \<Rightarrow> row list \<times> 'w" where
  "run_check_loop lower steam sp_items show_debug [] w rows_out = (rows_out, w)"
| "run_check_loop lower steam sp_items show_debug (mh # watch) w rows_out =
     (let (sp_price, reason) = skinport_find_min_price_usd lower sp_items mh True;
          (steam_price, w') = steam w mh;
          spread = (case (steam_price, sp_price) of
                      (Some a, Some b) \<Rightarrow> Some (a - b)
                    | _ \<Rightarrow> None);
          parsed = parse_market_hash_name mh;
          r = \<lparr>row_base_name = base_name parsed, row_wear = wear parsed,
               row_stattrak = is_stattrak parsed, row_market_hash_name = mh,
               steam_usd = steam_price, skinport_min_usd = sp_price, spread_usd = spread,
               match_debug = (if show_debug then Some reason else None)\<rparr>
      in run_check_loop lower steam sp_items show_debug watch w' (rows_out @ [r]))"

text \<open>What the price service answers to the successive calls of a run that starts in
  the state \<open>w\<close>.\<close>

fun steam_answers ::
  "('w \<Rightarrow> ustr \<Rightarrow> real option \<times> 'w) \<Rightarrow> 'w \<Rightarrow> ustr list \<Rightarrow> real option list" where
  "steam_answers steam w [] = []"
| "steam_answers steam w (mh # watch) =
     (let (steam_price, w') = steam w mh in steam_price # steam_answers steam w' watch)"

section \<open>Watchlist (app.py)\<close>

text \<open>
  The session state holds the watchlist once \<open>ensure_watchlist\<close> has run; reading the
  attribute before that raises.
\<close>

record session_state =
  watchlist :: "ustr list option"

definition ensure_watchlist :: "session_state \<Rightarrow> session_state" where
  "ensure_watchlist st =
     (case watchlist st of None \<Rightarrow> st\<lparr>watchlist := Some []\<rparr> | Some wl \<Rightarrow> st)"

definition get_watchlist :: "session_state \<Rightarrow> py_error + ustr list" where
  "get_watchlist st = (case watchlist st of None \<Rightarrow> Inl AttributeError | Some wl \<Rightarrow> Inr wl)"

definition add_to_watchlist :: "ustr \<Rightarrow> session_state \<Rightarrow> py_error + session_state" where
  "add_to_watchlist mh st0 =
     (let st = ensure_watchlist st0
      in case get_watchlist st of
           Inl e \<Rightarrow> Inl e
         | Inr wl \<Rightarrow>
             if mh \<noteq> [] \<and> mh \<notin> set wl then Inr (st\<lparr>watchlist := Some (wl @ [mh])\<rparr>)
             else Inr st)"

definition remove_from_watchlist :: "ustr \<Rightarrow> session_state \<Rightarrow> py_error + session_state" where
  "remove_from_watchlist mh st0 =
     (let st = ensure_watchlist st0
      in case get_watchlist st of
           Inl e \<Rightarrow> Inl e
         | Inr wl \<Rightarrow> Inr (st\<lparr>watchlist := Some (filter (\<lambda>x. x \<noteq> mh) wl)\<rparr>))"

text \<open>
  "Add pasted names": \<open>text_lines\<close> is \<open>text.splitlines()\<close>. The non-blank lines are
  trimmed and added one by one, each after a membership test of its own.
\<close>

fun add_pasted_loop :: "ustr list \<Rightarrow> session_state \<Rightarrow> py_error + session_state" where
  "add_pasted_loop [] st = Inr st"
| "add_pasted_loop (mh # lines) st =
     (case get_watchlist st of
        Inl e \<Rightarrow> Inl e
      | Inr wl \<Rightarrow>
          if mh \<notin> set wl
          then (case add_to_watchlist mh st of
                  Inl e \<Rightarrow> Inl e
                | Inr st' \<Rightarrow> add_pasted_loop lines st')
          else add_pasted_loop lines st)"

definition add_pasted_names :: "ustr list \<Rightarrow> session_state \<Rightarrow> py_error + session_state" where
  "add_pasted_names text_lines st =
     add_pasted_loop (map strip (filter (\<lambda>x. strip x \<noteq> []) text_lines)) st"

text \<open>
  What a user can do to the watchlist: the remove button of the sidebar, the "Add" button
  of a card and "Add pasted names". Streamlit runs the script from the top on every
  interaction, so \<open>ensure_watchlist()\<close> at module level comes before the handler.
\<close>

datatype event = ClickAdd ustr | ClickRemove ustr | ClickAddPasted "ustr list"

definition script_run :: "event \<Rightarrow> session_state \<Rightarrow> py_error + session_state" where
  "script_run ev st0 =
     (let st = ensure_watchlist st0
      in case ev of
           ClickAdd mh \<Rightarrow> add_to_watchlist mh st
         | ClickRemove mh \<Rightarrow> remove_from_watchlist mh st
         | ClickAddPasted text_lines \<Rightarrow> add_pasted_names text_lines st)"

fun script_runs :: "event list \<Rightarrow> session_state \<Rightarrow> py_error + session_state" where
  "script_runs [] st = Inr st"
| "script_runs (ev # evs) st =
     (case script_run ev st of Inl e \<Rightarrow> Inl e | Inr st' \<Rightarrow> script_runs evs st')"

text \<open>The invariant of the watchlist: once it exists, no name occurs in it twice.\<close>

definition watchlist_ok :: "session_state \<Rightarrow> bool" where
  "watchlist_ok st \<longleftrightarrow> (case watchlist st of None \<Rightarrow> True | Some wl \<Rightarrow> distinct wl)"

section \<open>Facts about strings\<close>

lemmas str_defs = asc_def strip_def lstrip_def rstrip_def is_space_def
lemmas parse_defs = parse_market_hash_name_def STATTRAK_PREFIX_def SOUVENIR_PREFIX_def wear_match_here_def WEARS_def

lemma startswith_iff: "startswith s p \<longleftrightarrow> (\<exists>r. s = p @ r)"
  by (induction s p rule: startswith.induct) auto

lemma startswith_append [simp]: "startswith (p @ r) p"
  by (simp add: startswith_iff)

lemma contains_iff: "contains s t \<longleftrightarrow> (\<exists>ps ss. s = ps @ t @ ss)"
proof (induction s)
  case Nil
  show ?case by auto
next
  case (Cons c cs)
  show ?case
  proof
    assume "contains (c # cs) t"
    then consider "startswith (c # cs) t" | "contains cs t" by auto
    then show "\<exists>ps ss. c # cs = ps @ t @ ss"
    proof cases
      case 1
      then obtain r where "c # cs = t @ r" by (auto simp: startswith_iff)
      then have "c # cs = [] @ t @ r" by simp
      then show ?thesis by blast
    next
      case 2
      then obtain ps ss where "cs = ps @ t @ ss" using Cons.IH by blast
      then have "c # cs = (c # ps) @ t @ ss" by simp
      then show ?thesis by blast
    qed
  next
    assume "\<exists>ps ss. c # cs = ps @ t @ ss"
    then obtain ps ss where eq: "c # cs = ps @ t @ ss" by blast
    show "contains (c # cs) t"
    proof (cases ps)
      case Nil
      with eq have "startswith (c # cs) t" by (auto simp: startswith_iff)
      then show ?thesis by simp
    next
      case (Cons p ps')
      with eq have "cs = ps' @ t @ ss" by simp
      then have "contains cs t" using Cons.IH by blast
      then show ?thesis by simp
    qed
  qed
qed

lemma contains_length: "contains s t \<Longrightarrow> length t \<le> length s"
  by (auto simp: contains_iff)

lemma lstrip_id: "s \<noteq> [] \<Longrightarrow> \<not> is_space (hd s) \<Longrightarrow> lstrip s = s"
  by (cases s) (simp_all add: lstrip_def)

lemma rstrip_id: "s \<noteq> [] \<Longrightarrow> \<not> is_space (last s) \<Longrightarrow> rstrip s = s"
  by (cases s rule: rev_cases) (simp_all add: rstrip_def)

lemma strip_id: "s \<noteq> [] \<Longrightarrow> \<not> is_space (hd s) \<Longrightarrow> \<not> is_space (last s) \<Longrightarrow> strip s = s"
  by (simp add: strip_def lstrip_id rstrip_id)

lemma strip_Nil [simp]: "strip [] = []"
  by (simp add: strip_def lstrip_def rstrip_def)

lemma rstrip_last: "rstrip s \<noteq> [] \<Longrightarrow> \<not> is_space (last (rstrip s))"
  unfolding rstrip_def
  by (metis hd_dropWhile last_rev rev_is_Nil_conv)

lemma lstrip_hd: "lstrip s \<noteq> [] \<Longrightarrow> \<not> is_space (hd (lstrip s))"
  unfolding lstrip_def by (rule hd_dropWhile)

lemma rstrip_prefix: "\<exists>r. s = rstrip s @ r"
proof -
  have "rev s = takeWhile is_space (rev s) @ dropWhile is_space (rev s)" by simp
  then have "s = rev (dropWhile is_space (rev s)) @ rev (takeWhile is_space (rev s))"
    by (metis rev_append rev_rev_ident)
  then show ?thesis unfolding rstrip_def by blast
qed

lemma rstrip_hd: "rstrip s \<noteq> [] \<Longrightarrow> hd (rstrip s) = hd s"
  using rstrip_prefix [of s] by (metis hd_append2)

lemma strip_hd: "strip s \<noteq> [] \<Longrightarrow> \<not> is_space (hd (strip s))"
  unfolding strip_def
  by (metis rstrip_hd lstrip_hd rstrip_def rev.simps(1) dropWhile.simps(1))

lemma strip_last: "strip s \<noteq> [] \<Longrightarrow> \<not> is_space (last (strip s))"
  unfolding strip_def by (rule rstrip_last)

lemma strip_strip [simp]: "strip (strip s) = strip s"
  by (cases "strip s = []") (simp_all add: strip_id strip_hd strip_last)

lemma set_strip: "set (strip s) \<subseteq> set s"
  unfolding strip_def lstrip_def rstrip_def
  by (metis set_dropWhileD set_rev subsetI)

section \<open>The parser on composed identifiers\<close>

lemma startswith_before_paren:
  "40 \<notin> set p \<Longrightarrow> startswith (x @ 40 # r) p \<longleftrightarrow> startswith x p"
  by (induction x p rule: startswith.induct) auto

lemma wear_cases:
  "w \<in> set WEARS \<Longrightarrow>
     w = asc ''Factory New'' \<or> w = asc ''Minimal Wear'' \<or> w = asc ''Field-Tested'' \<or>
     w = asc ''Well-Worn'' \<or> w = asc ''Battle-Scarred''"
  by (simp add: WEARS_def)

lemma strip_wear: "w \<in> set WEARS \<Longrightarrow> strip w = w"
  by (drule wear_cases) (elim disjE; simp add: str_defs)

lemma wear_match_here_wear:
  "w \<in> set WEARS \<Longrightarrow> wear_match_here (32 # 40 # w @ [41]) = Some w"
  by (drule wear_cases) (elim disjE; simp add: wear_match_here_def WEARS_def asc_def is_space_def)

lemma wear_match_here_no_paren:
  "hd (cs @ [32]) \<noteq> 40 \<Longrightarrow> wear_match_here (c # cs @ 32 # r) = None"
  by (cases cs) (simp_all add: wear_match_here_def)

lemma re_search_wear_suffix:
  "40 \<notin> set b \<Longrightarrow> w \<in> set WEARS \<Longrightarrow>
     re_search_wear (b @ 32 # 40 # w @ [41]) = Some (length b, w)"
proof (induction b)
  case Nil
  then show ?case by (simp add: wear_match_here_wear)
next
  case (Cons c cs)
  then have "hd (cs @ [32]) \<noteq> 40" by (cases cs) auto
  then have "wear_match_here (c # cs @ 32 # 40 # w @ [41]) = None"
    by (rule wear_match_here_no_paren)
  with Cons show ?case by simp
qed

lemma no_paren_prefixes: "40 \<notin> set STATTRAK_PREFIX" "40 \<notin> set SOUVENIR_PREFIX"
  by (simp_all add: STATTRAK_PREFIX_def SOUVENIR_PREFIX_def asc_def)

lemma stattrak_not_souvenir: "\<not> startswith (STATTRAK_PREFIX @ r) SOUVENIR_PREFIX"
  by (simp add: STATTRAK_PREFIX_def SOUVENIR_PREFIX_def asc_def)

lemma not_both_prefixes: "startswith s STATTRAK_PREFIX \<Longrightarrow> \<not> startswith s SOUVENIR_PREFIX"
  by (auto simp: startswith_iff [of s STATTRAK_PREFIX] stattrak_not_souvenir)

lemma build_eq:
  "w \<in> set WEARS \<Longrightarrow>
   build_market_hash_name base w stattrak =
     (if stattrak then STATTRAK_PREFIX else []) @ strip base @ 32 # 40 # w @ [41]"
  by (simp add: build_market_hash_name_def strip_wear asc_def)

lemma parse_composed:
  assumes w: "w \<in> set WEARS" and b: "40 \<notin> set b" "strip b = b"
    and mh: "strip (pre @ b @ 32 # 40 # w @ [41]) = pre @ b @ 32 # 40 # w @ [41]"
    and pre: "pre = STATTRAK_PREFIX \<and> st \<or>
              pre = [] \<and> \<not> st \<and> \<not> startswith (b @ [32]) STATTRAK_PREFIX \<and>
                \<not> startswith (b @ [32]) SOUVENIR_PREFIX"
  shows "parse_market_hash_name (pre @ b @ 32 # 40 # w @ [41]) =
           \<lparr>market_hash_name = pre @ b @ 32 # 40 # w @ [41], is_stattrak = st,
            is_souvenir = False, base_name = b, wear = Some w\<rparr>"
proof -
  let ?tail = "b @ 32 # 40 # w @ [41]"
  have split: "?tail = (b @ [32]) @ 40 # (w @ [41])" by simp
  have search: "re_search_wear ?tail = Some (length b, w)"
    using b(1) w by (rule re_search_wear_suffix)
  from pre show ?thesis
  proof (elim disjE conjE)
    assume "pre = STATTRAK_PREFIX" and st
    then show ?thesis
      using mh search b(2)
      by (simp add: parse_market_hash_name_def stattrak_not_souvenir)
  next
    assume p: "pre = []" "\<not> st" and
      n: "\<not> startswith (b @ [32]) STATTRAK_PREFIX" "\<not> startswith (b @ [32]) SOUVENIR_PREFIX"
    have "\<not> startswith ?tail STATTRAK_PREFIX" "\<not> startswith ?tail SOUVENIR_PREFIX"
      unfolding split using n by (simp_all only: startswith_before_paren no_paren_prefixes not_False_eq_True)
    then show ?thesis
      using mh search b(2) p
      by (simp add: parse_market_hash_name_def)
  qed
qed

section \<open>Parse and compose\<close>

lemma strip_composed:
  assumes "pre = [] \<longrightarrow> strip base \<noteq> []" "pre = [] \<or> pre = STATTRAK_PREFIX"
  shows "strip (pre @ strip base @ 32 # 40 # w @ [41]) = pre @ strip base @ 32 # 40 # w @ [41]"
proof (rule strip_id)
  show "pre @ strip base @ 32 # 40 # w @ [41] \<noteq> []" by simp
  show "\<not> is_space (last (pre @ strip base @ 32 # 40 # w @ [41]))"
    by (simp add: is_space_def)
  show "\<not> is_space (hd (pre @ strip base @ 32 # 40 # w @ [41]))"
  proof (cases "pre = []")
    case True
    with assms(1) show ?thesis by (simp add: strip_hd)
  next
    case False
    with assms(2) show ?thesis
      by (simp add: STATTRAK_PREFIX_def asc_def is_space_def)
  qed
qed

text \<open>
  Claim C1, as the code has it. \<open>build_market_hash_name\<close> trims the base name, and
  the parser reads the prefixes off the composed string. So for a base name without
  parentheses, any of the five wear tiers and either value of the StatTrak flag, parsing
  the composed identifier gives back the trimmed base name, the wear tier and the flag,
  provided that, when the flag is off, the trimmed base name is not empty and, followed by a
  space, does not itself begin with the StatTrak or the Souvenir prefix.
\<close>

theorem parse_build_roundtrip:
  assumes "w \<in> set WEARS" and "40 \<notin> set base" and "41 \<notin> set base"
    and "stattrak \<or>
         (strip base \<noteq> [] \<and> \<not> startswith (strip base @ [32]) STATTRAK_PREFIX \<and>
          \<not> startswith (strip base @ [32]) SOUVENIR_PREFIX)"
  shows "base_name (parse_market_hash_name (build_market_hash_name base w stattrak)) = strip base \<and>
         wear (parse_market_hash_name (build_market_hash_name base w stattrak)) = Some w \<and>
         is_stattrak (parse_market_hash_name (build_market_hash_name base w stattrak)) = stattrak"
proof -
  define pre where "pre = (if stattrak then STATTRAK_PREFIX else [])"
  have build: "build_market_hash_name base w stattrak = pre @ strip base @ 32 # 40 # w @ [41]"
    using assms(1) by (simp add: build_eq pre_def)
  have noparen: "40 \<notin> set (strip base)"
    using assms(2) set_strip [of base] by blast
  have trimmed: "strip (pre @ strip base @ 32 # 40 # w @ [41]) = pre @ strip base @ 32 # 40 # w @ [41]"
    using assms(4) by (intro strip_composed) (auto simp: pre_def STATTRAK_PREFIX_def)
  have side: "pre = STATTRAK_PREFIX \<and> stattrak \<or>
              pre = [] \<and> \<not> stattrak \<and> \<not> startswith (strip base @ [32]) STATTRAK_PREFIX \<and>
                \<not> startswith (strip base @ [32]) SOUVENIR_PREFIX"
    using assms(4) by (auto simp: pre_def)
  have "parse_market_hash_name (pre @ strip base @ 32 # 40 # w @ [41]) =
           \<lparr>market_hash_name = pre @ strip base @ 32 # 40 # w @ [41], is_stattrak = stattrak,
            is_souvenir = False, base_name = strip base, wear = Some w\<rparr>"
    using assms(1) noparen strip_strip trimmed side by (rule parse_composed)
  then show ?thesis by (simp add: build)
qed

text \<open>The round trip at \<open>AK-47 | Redline\<close>, \<open>Field-Tested\<close>, flag off.\<close>

theorem parse_build_roundtrip_witness:
  "asc ''Field-Tested'' \<in> set WEARS \<and> 40 \<notin> set (asc ''AK-47 | Redline'') \<and>
   41 \<notin> set (asc ''AK-47 | Redline'') \<and>
   (False \<or> (strip (asc ''AK-47 | Redline'') \<noteq> [] \<and>
      \<not> startswith (strip (asc ''AK-47 | Redline'') @ [32]) STATTRAK_PREFIX \<and>
      \<not> startswith (strip (asc ''AK-47 | Redline'') @ [32]) SOUVENIR_PREFIX)) \<and>
   base_name (parse_market_hash_name
     (build_market_hash_name (asc ''AK-47 | Redline'') (asc ''Field-Tested'') False)) =
       asc ''AK-47 | Redline'' \<and>
   wear (parse_market_hash_name
     (build_market_hash_name (asc ''AK-47 | Redline'') (asc ''Field-Tested'') False)) =
       Some (asc ''Field-Tested'') \<and>
   is_stattrak (parse_market_hash_name
     (build_market_hash_name (asc ''AK-47 | Redline'') (asc ''Field-Tested'') False)) = False"
proof -
  have h1: "asc ''Field-Tested'' \<in> set WEARS" by (simp add: WEARS_def)
  have h2: "40 \<notin> set (asc ''AK-47 | Redline'')" by (simp add: asc_def)
  have h3: "41 \<notin> set (asc ''AK-47 | Redline'')" by (simp add: asc_def)
  have s: "strip (asc ''AK-47 | Redline'') = asc ''AK-47 | Redline''"
    by (simp add: str_defs)
  have h4: "False \<or> (strip (asc ''AK-47 | Redline'') \<noteq> [] \<and>
      \<not> startswith (strip (asc ''AK-47 | Redline'') @ [32]) STATTRAK_PREFIX \<and>
      \<not> startswith (strip (asc ''AK-47 | Redline'') @ [32]) SOUVENIR_PREFIX)"
    unfolding s by (simp add: asc_def STATTRAK_PREFIX_def SOUVENIR_PREFIX_def)
  from parse_build_roundtrip [OF h1 h2 h3 h4] h1 h2 h3 h4 show ?thesis
    unfolding s by blast
qed

text \<open>
  Claim C1 as stated fails at the empty base name with the flag off: the composed string
  is \<open>" (Factory New)"\<close>, the parser trims it, the wear pattern no longer finds its
  leading white space, and the whole string becomes the base name.
\<close>

theorem roundtrip_empty_base_counterexample:
  "asc ''Factory New'' \<in> set WEARS \<and> 40 \<notin> set ([] :: ustr) \<and> 41 \<notin> set ([] :: ustr) \<and>
   base_name (parse_market_hash_name (build_market_hash_name [] (asc ''Factory New'') False))
     = asc ''(Factory New)'' \<and>
   base_name (parse_market_hash_name (build_market_hash_name [] (asc ''Factory New'') False))
     \<noteq> [] \<and>
   wear (parse_market_hash_name (build_market_hash_name [] (asc ''Factory New'') False))
     \<noteq> Some (asc ''Factory New'')"
  by (simp add: str_defs parse_defs build_market_hash_name_def Let_def)

text \<open>The other side conditions are needed as well: an untrimmed base name comes back
  trimmed, and a base name that starts with a prefix loses it or sets the flag.\<close>

lemma roundtrip_untrimmed_base:
  "base_name (parse_market_hash_name
     (build_market_hash_name (asc '' AK'') (asc ''Factory New'') False)) = asc ''AK''"
  by (simp add: str_defs parse_defs build_market_hash_name_def)

lemma roundtrip_souvenir_base:
  "base_name (parse_market_hash_name
     (build_market_hash_name (asc ''Souvenir AK'') (asc ''Factory New'') False)) = asc ''AK''"
  by (simp add: str_defs parse_defs build_market_hash_name_def)

lemma roundtrip_stattrak_base:
  "is_stattrak (parse_market_hash_name
     (build_market_hash_name (STATTRAK_PREFIX @ asc ''AK'') (asc ''Factory New'') False))"
  by (simp add: str_defs parse_defs build_market_hash_name_def)

section \<open>Prefix detection\<close>

text \<open>
  Claim C7, as the code has it. Both prefix tests are made on the same trimmed input
  string; the Souvenir test is not repeated on what remains after the StatTrak prefix
  is cut off. No string begins with both prefixes, so the two flags are never set together.
\<close>

theorem parse_flags_same_string:
  "is_stattrak (parse_market_hash_name mh) = startswith (strip mh) STATTRAK_PREFIX \<and>
   is_souvenir (parse_market_hash_name mh) = startswith (strip mh) SOUVENIR_PREFIX \<and>
   \<not> (is_stattrak (parse_market_hash_name mh) \<and> is_souvenir (parse_market_hash_name mh))"
proof -
  have "is_stattrak (parse_market_hash_name mh) = startswith (strip mh) STATTRAK_PREFIX"
    by (simp add: parse_market_hash_name_def Let_def split: option.split)
  moreover have "is_souvenir (parse_market_hash_name mh) = startswith (strip mh) SOUVENIR_PREFIX"
    by (simp add: parse_market_hash_name_def Let_def split: option.split)
  ultimately show ?thesis using not_both_prefixes [of "strip mh"] by simp
qed

text \<open>
  Claim C7 as stated fails on the StatTrak prefix followed by the Souvenir prefix: the
  remainder after the first prefix does begin with the second, yet only the StatTrak flag
  is set, and \<open>Souvenir\<close> stays in the base name.
\<close>

theorem both_prefixes_counterexample:
  "startswith (STATTRAK_PREFIX @ SOUVENIR_PREFIX @ asc ''AK (Well-Worn)'') STATTRAK_PREFIX \<and>
   startswith (drop (length STATTRAK_PREFIX)
      (STATTRAK_PREFIX @ SOUVENIR_PREFIX @ asc ''AK (Well-Worn)'')) SOUVENIR_PREFIX \<and>
   parse_market_hash_name (STATTRAK_PREFIX @ SOUVENIR_PREFIX @ asc ''AK (Well-Worn)'') =
     \<lparr>market_hash_name = STATTRAK_PREFIX @ SOUVENIR_PREFIX @ asc ''AK (Well-Worn)'',
      is_stattrak = True, is_souvenir = False, base_name = asc ''Souvenir AK'',
      wear = Some (asc ''Well-Worn'')\<rparr>"
  by (simp add: str_defs parse_defs)

section \<open>Fee defaults\<close>

text \<open>
  Claim C3, as the code has it. Both functions read \<open>fees_cfg["market_fees"]\<close> first.
  When the schedule document has that mapping and the mapping leaves the seller fee rate
  of the marketplace unset (no entry for the marketplace, or an entry without the rate),
  the defaults apply: the seller's net of 100.0 is 88.0 on \<open>skinport\<close> and 85.0 on
  \<open>steam\<close>, and the buyer's total of 100.0 on \<open>steam\<close> is 100.0.
\<close>

theorem fee_defaults_market_fees_present:
  assumes "cfg (asc ''market_fees'') = Some fees"
    and "\<forall>mf. fees (asc ''skinport'') = Some mf \<longrightarrow> mf (asc ''seller_fee_rate'') = None"
    and "\<forall>mf. fees (asc ''steam'') = Some mf \<longrightarrow> mf (asc ''seller_fee_rate'') = None"
  shows "apply_seller_net_usd (asc ''skinport'') 100 cfg = Inr 88 \<and>
         apply_seller_net_usd (asc ''steam'') 100 cfg = Inr 85 \<and>
         apply_buyer_total_usd (asc ''steam'') 100 cfg = Inr 100"
proof -
  have sp: "(case (case fees (asc ''skinport'') of None \<Rightarrow> Map.empty | Some m \<Rightarrow> m)
              (asc ''seller_fee_rate'') of None \<Rightarrow> 0.12 | Some r \<Rightarrow> r) = (0.12 :: real)"
    using assms(2) by (cases "fees (asc ''skinport'')") simp_all
  have stm: "(case (case fees (asc ''steam'') of None \<Rightarrow> Map.empty | Some m \<Rightarrow> m)
              (asc ''seller_fee_rate'') of None \<Rightarrow> 0.15 | Some r \<Rightarrow> r) = (0.15 :: real)"
    using assms(3) by (cases "fees (asc ''steam'')") simp_all
  have ne: "asc ''skinport'' \<noteq> asc ''steam''" by (simp add: asc_def)
  have "apply_seller_net_usd (asc ''skinport'') 100 cfg = Inr 88"
    using assms(1) sp ne by (simp add: apply_seller_net_usd_def)
  moreover have "apply_seller_net_usd (asc ''steam'') 100 cfg = Inr 85"
    using assms(1) stm by (simp add: apply_seller_net_usd_def)
  moreover have "apply_buyer_total_usd (asc ''steam'') 100 cfg = Inr 100"
    using assms(1) by (simp add: apply_buyer_total_usd_def)
  ultimately show ?thesis by simp
qed

text \<open>A schedule that configures another marketplace only.\<close>

theorem fee_defaults_witness:
  "[asc ''market_fees'' \<mapsto> [asc ''skinbaron'' \<mapsto> [asc ''seller_fee_rate'' \<mapsto> (0.05 :: real)]]]
     (asc ''market_fees'') = Some [asc ''skinbaron'' \<mapsto> [asc ''seller_fee_rate'' \<mapsto> 0.05]] \<and>
   [asc ''skinbaron'' \<mapsto> [asc ''seller_fee_rate'' \<mapsto> (0.05 :: real)]] (asc ''skinport'') = None \<and>
   [asc ''skinbaron'' \<mapsto> [asc ''seller_fee_rate'' \<mapsto> (0.05 :: real)]] (asc ''steam'') = None \<and>
   apply_seller_net_usd (asc ''skinport'') 100
     [asc ''market_fees'' \<mapsto> [asc ''skinbaron'' \<mapsto> [asc ''seller_fee_rate'' \<mapsto> 0.05]]] = Inr 88 \<and>
   apply_seller_net_usd (asc ''steam'') 100
     [asc ''market_fees'' \<mapsto> [asc ''skinbaron'' \<mapsto> [asc ''seller_fee_rate'' \<mapsto> 0.05]]] = Inr 85 \<and>
   apply_buyer_total_usd (asc ''steam'') 100
     [asc ''market_fees'' \<mapsto> [asc ''skinbaron'' \<mapsto> [asc ''seller_fee_rate'' \<mapsto> 0.05]]] = Inr 100"
proof -
  let ?fees = "[asc ''skinbaron'' \<mapsto> [asc ''seller_fee_rate'' \<mapsto> (0.05 :: real)]]"
  let ?cfg = "[asc ''market_fees'' \<mapsto> ?fees]"
  have h1: "?cfg (asc ''market_fees'') = Some ?fees"
    by simp
  have h2: "\<forall>mf. ?fees (asc ''skinport'') = Some mf \<longrightarrow> mf (asc ''seller_fee_rate'') = None"
    by (simp add: asc_def)
  have h3: "\<forall>mf. ?fees (asc ''steam'') = Some mf \<longrightarrow> mf (asc ''seller_fee_rate'') = None"
    by (simp add: asc_def)
  have n: "?fees (asc ''skinport'') = None" "?fees (asc ''steam'') = None"
    by (simp_all add: asc_def)
  from fee_defaults_market_fees_present [of ?cfg ?fees, OF h1 h2 h3] h1 n
  show ?thesis by blast
qed

text \<open>
  Claim C3 as stated fails: with the empty schedule document \<open>{}\<close> the subscript
  \<open>fees_cfg["market_fees"]\<close> raises \<open>KeyError\<close> in all three calls, before any default
  is looked at.
\<close>

theorem fee_defaults_empty_schedule_counterexample:
  "apply_seller_net_usd (asc ''skinport'') 100 Map.empty = Inl KeyError \<and>
   apply_seller_net_usd (asc ''steam'') 100 Map.empty = Inl KeyError \<and>
   apply_buyer_total_usd (asc ''steam'') 100 Map.empty = Inl KeyError"
  by (simp add: apply_seller_net_usd_def apply_buyer_total_usd_def)

section \<open>Display cap\<close>

text \<open>
  Claim C4: an absent price gives an absent result; a numeric price gives the sentinel
  \<open>exceeds limit\<close> exactly when it is strictly greater than the cap, and comes back
  unchanged when it is at most the cap. A price equal to the cap is not flagged.
\<close>

theorem cap_display_boundary:
  "enforce_scm_cap_display PyNone cap = None \<and>
   (enforce_scm_cap_display (PyNum p) cap = Some (Text (asc ''exceeds limit'')) \<longleftrightarrow> p > cap) \<and>
   (p \<le> cap \<longrightarrow> enforce_scm_cap_display (PyNum p) cap = Some (Num p))"
  by (simp add: enforce_scm_cap_display_def py_float_def)

text \<open>The boundary itself: price 2000.0 under the cap 2000.0.\<close>

theorem cap_display_boundary_witness:
  "(2000 :: real) \<le> 2000 \<and>
   enforce_scm_cap_display PyNone 2000 = None \<and>
   enforce_scm_cap_display (PyNum 2000) 2000 = Some (Num 2000) \<and>
   enforce_scm_cap_display (PyNum 2000) 2000 \<noteq> Some (Text (asc ''exceeds limit''))"
  using cap_display_boundary [of 2000 2000] by simp

lemma cap_display_above:
  "enforce_scm_cap_display (PyNum 2000.01) 2000 = Some (Text (asc ''exceeds limit''))"
  by (simp add: enforce_scm_cap_display_def py_float_def)

lemma cap_display_non_numeric: "enforce_scm_cap_display PyOther cap = None"
  by (simp add: enforce_scm_cap_display_def py_float_def)

section \<open>Candidates and their order\<close>

lemmas match_defs = collect_candidates_def match_item_def norm_str_def simplify_def
  match_score_def ascii_lower_def py_float_def

lemma match_item_acc:
  "match_item lower target ts it acc = acc @ match_item lower target ts it []"
  by (simp add: match_item_def Let_def split: option.split sum.split)

lemma fold_match_item:
  "fold (match_item lower target ts) items acc =
     acc @ concat (map (\<lambda>it. match_item lower target ts it []) items)"
proof (induction items arbitrary: acc)
  case Nil
  show ?case by simp
next
  case (Cons it items)
  have "fold (match_item lower target ts) (it # items) acc =
          fold (match_item lower target ts) items (match_item lower target ts it acc)"
    by simp
  also have "\<dots> = match_item lower target ts it acc @
                     concat (map (\<lambda>it. match_item lower target ts it []) items)"
    by (rule Cons.IH)
  also have "\<dots> = (acc @ match_item lower target ts it []) @
                     concat (map (\<lambda>it. match_item lower target ts it []) items)"
    using match_item_acc [of lower target ts it acc] by simp
  finally show ?case by simp
qed

lemma collect_candidates_eq:
  "collect_candidates lower items mhn =
     concat (map (\<lambda>it. match_item lower (norm_str lower (Some mhn))
                          (norm_str lower (Some (simplify mhn))) it []) items)"
  by (simp add: collect_candidates_def fold_match_item)

lemma match_item_exact:
  "it_min_price it = PyNum v \<Longrightarrow> norm_str lower (it_market_hash_name it) = target \<Longrightarrow>
     match_item lower target ts it acc = acc @ [(v, asc ''exact match: '' @ target, 100)]"
  by (simp add: match_item_def py_float_def Let_def)

lemma match_item_partial:
  "it_min_price it = PyNum v \<Longrightarrow> norm_str lower (it_market_hash_name it) \<noteq> target \<Longrightarrow>
   ts \<noteq> [] \<Longrightarrow> contains (norm_str lower (it_market_hash_name it)) ts \<Longrightarrow>
     match_item lower target ts it acc =
       acc @ [(v, asc ''partial match: '' @ norm_str lower (it_market_hash_name it),
               match_score ts (norm_str lower (it_market_hash_name it)))]"
  by (simp add: match_item_def py_float_def Let_def)

lemma match_item_skip:
  "py_float (it_min_price it) = Inl e \<or>
   (norm_str lower (it_market_hash_name it) \<noteq> target \<and>
    \<not> (ts \<noteq> [] \<and> contains (norm_str lower (it_market_hash_name it)) ts)) \<Longrightarrow>
     match_item lower target ts it acc = acc"
  by (auto simp: match_item_def py_float_def Let_def split: pyval.splits)

lemma candidate_in_collect:
  "it \<in> set items \<Longrightarrow>
   match_item lower (norm_str lower (Some mhn)) (norm_str lower (Some (simplify mhn))) it [] = [x] \<Longrightarrow>
     x \<in> set (collect_candidates lower items mhn)"
  by (force simp: collect_candidates_eq)

lemma hd_sort_key_least:
  assumes "xs \<noteq> []"
  shows "hd (sort_key f xs) \<in> set xs \<and> (\<forall>x \<in> set xs. f (hd (sort_key f xs)) \<le> f x)"
proof -
  from assms have ne: "sort_key f xs \<noteq> []"
    by (metis length_0_conv length_sort)
  then obtain y ys where ys: "sort_key f xs = y # ys" by (cases "sort_key f xs") auto
  have "sorted (map f (y # ys))" using sorted_sort_key [of f xs] ys by simp
  then have "\<forall>x \<in> set ys. f y \<le> f x" by simp
  moreover have "set (y # ys) = set xs" using set_sort [of f xs] ys by simp
  ultimately show ?thesis using ys by auto
qed

lemma sort_candidates_order:
  "sorted_wrt (\<lambda>(v1, r1, s1) (v2, r2, s2). v1 < v2 \<or> (v1 = v2 \<and> s2 \<le> s1))
     (sort_candidates candidates)"
proof -
  have "sorted (map (\<lambda>(v, reason, score). (v, - score)) (sort_candidates candidates))"
    unfolding sort_candidates_def by (rule sorted_sort_key)
  then have "sorted_wrt (\<lambda>a b. (\<lambda>(v, reason, score). (v, - score)) a \<le>
                                 (\<lambda>(v, reason, score). (v, - score)) b)
               (sort_candidates candidates)"
    by (simp add: sorted_map)
  then show ?thesis
    by (rule sorted_wrt_mono_rel [rotated]) (auto simp: less_eq_prod_def)
qed

lemma find_price_least:
  assumes "collect_candidates lower items mhn \<noteq> []"
  shows "\<exists>p r s. (p, r, s) \<in> set (collect_candidates lower items mhn) \<and>
           (\<forall>debug. skinport_find_min_price_usd lower items mhn debug =
              (Some p, if debug then Some r else None)) \<and>
           (\<forall>x \<in> set (collect_candidates lower items mhn). p \<le> fst x) \<and>
           (\<forall>x \<in> set (collect_candidates lower items mhn). fst x = p \<longrightarrow> snd (snd x) \<le> s)"
proof -
  let ?cands = "collect_candidates lower items mhn"
  let ?key = "\<lambda>(v :: real, reason :: ustr, score :: int). (v, - score)"
  obtain p r s where best: "hd (sort_candidates ?cands) = (p, r, s)"
    by (cases "hd (sort_candidates ?cands)") auto
  from hd_sort_key_least [OF assms, of ?key]
  have mem: "(p, r, s) \<in> set ?cands" and least: "\<forall>x \<in> set ?cands. ?key (p, r, s) \<le> ?key x"
    using best by (simp_all add: sort_candidates_def)
  have price: "\<forall>x \<in> set ?cands. p \<le> fst x"
  proof
    fix x assume "x \<in> set ?cands"
    with least have "?key (p, r, s) \<le> ?key x" by blast
    then show "p \<le> fst x" by (cases x) (auto simp: less_eq_prod_def)
  qed
  have score: "\<forall>x \<in> set ?cands. fst x = p \<longrightarrow> snd (snd x) \<le> s"
  proof (intro ballI impI)
    fix x assume "x \<in> set ?cands" and "fst x = p"
    with least have "?key (p, r, s) \<le> ?key x" by blast
    with \<open>fst x = p\<close> show "snd (snd x) \<le> s" by (cases x) (auto simp: less_eq_prod_def)
  qed
  have "\<forall>debug. skinport_find_min_price_usd lower items mhn debug =
                   (Some p, if debug then Some r else None)"
    using assms best by (simp add: skinport_find_min_price_usd_def)
  with mem price score show ?thesis by blast
qed

section \<open>Price before exactness\<close>

lemmas find_defs = skinport_find_min_price_usd_def sort_candidates_def
lemmas example_defs = example_target_def example_exact_def example_partial_def
  example_exact_cheap_def example_bare_def

text \<open>
  Claim C2, as the code has it. Let a catalog hold an entry whose normalized name equals
  the normalized target, and a strictly cheaper entry that qualifies as a partial match
  only. Then the matcher returns the lowest price among all candidates: the price of one
  of the candidates, at most every candidate's price, hence at most the partial match's
  and strictly below that exact match's; it is the partial match's price when no candidate
  is cheaper. Among the candidates at that price the returned one has the highest score,
  and with debug on the reason returned is its reason. The sorted candidates ascend by price, and
  among equal prices descend by score.
\<close>

theorem cheapest_candidate_wins:
  assumes "e \<in> set items" and "it_min_price e = PyNum pe"
    and "norm_str lower (it_market_hash_name e) = norm_str lower (Some mhn)"
    and "c \<in> set items" and "it_min_price c = PyNum pc"
    and "norm_str lower (it_market_hash_name c) \<noteq> norm_str lower (Some mhn)"
    and "norm_str lower (Some (simplify mhn)) \<noteq> []"
    and "contains (norm_str lower (it_market_hash_name c)) (norm_str lower (Some (simplify mhn)))"
    and "pc < pe"
  shows "(\<exists>p r s. (p, r, s) \<in> set (collect_candidates lower items mhn) \<and>
              skinport_find_min_price_usd lower items mhn debug =
                (Some p, if debug then Some r else None) \<and>
              fst (skinport_find_min_price_usd lower items mhn debug) = Some p \<and>
              p \<le> pc \<and> p < pe \<and>
              (\<forall>x \<in> set (collect_candidates lower items mhn). p \<le> fst x) \<and>
              (\<forall>x \<in> set (collect_candidates lower items mhn). fst x = p \<longrightarrow> snd (snd x) \<le> s) \<and>
              ((\<forall>x \<in> set (collect_candidates lower items mhn). pc \<le> fst x) \<longrightarrow> p = pc)) \<and>
         sorted_wrt (\<lambda>(v1, r1, s1) (v2, r2, s2). v1 < v2 \<or> (v1 = v2 \<and> s2 \<le> s1))
           (sort_candidates (collect_candidates lower items mhn))"
proof -
  let ?cands = "collect_candidates lower items mhn"
  let ?mh = "norm_str lower (it_market_hash_name c)"
  let ?ts = "norm_str lower (Some (simplify mhn))"
  have "match_item lower (norm_str lower (Some mhn)) ?ts c [] =
          [(pc, asc ''partial match: '' @ ?mh, match_score ?ts ?mh)]"
    using assms(5-8) by (simp add: match_item_partial)
  with assms(4) have partial: "(pc, asc ''partial match: '' @ ?mh, match_score ?ts ?mh) \<in> set ?cands"
    by (rule candidate_in_collect)
  then have "?cands \<noteq> []" by auto
  from find_price_least [OF this] obtain p r s where
    mem: "(p, r, s) \<in> set ?cands"
    and res: "skinport_find_min_price_usd lower items mhn debug = (Some p, if debug then Some r else None)"
    and least: "\<forall>x \<in> set ?cands. p \<le> fst x"
    and tie: "\<forall>x \<in> set ?cands. fst x = p \<longrightarrow> snd (snd x) \<le> s"
    by blast
  from least partial have le: "p \<le> pc" by force
  have min: "(\<forall>x \<in> set ?cands. pc \<le> fst x) \<longrightarrow> p = pc"
  proof
    assume "\<forall>x \<in> set ?cands. pc \<le> fst x"
    with mem have "pc \<le> p" by force
    with le show "p = pc" by simp
  qed
  have fst_res: "fst (skinport_find_min_price_usd lower items mhn debug) = Some p"
    using res by simp
  have lt: "p < pe" using le assms(9) by simp
  have "\<exists>p r s. (p, r, s) \<in> set ?cands \<and>
          skinport_find_min_price_usd lower items mhn debug =
            (Some p, if debug then Some r else None) \<and>
          fst (skinport_find_min_price_usd lower items mhn debug) = Some p \<and>
          p \<le> pc \<and> p < pe \<and> (\<forall>x \<in> set ?cands. p \<le> fst x) \<and>
          (\<forall>x \<in> set ?cands. fst x = p \<longrightarrow> snd (snd x) \<le> s) \<and>
          ((\<forall>x \<in> set ?cands. pc \<le> fst x) \<longrightarrow> p = pc)"
    using mem res fst_res le lt least tie min by blast
  then show ?thesis using sort_candidates_order [of ?cands] by (rule conjI)
qed

lemma example_norms:
  "norm_str ascii_lower (Some example_target) = asc ''foo (field-tested)''"
  "norm_str ascii_lower (Some (simplify example_target)) = asc ''foo''"
  "norm_str ascii_lower (it_market_hash_name example_exact) = asc ''foo (field-tested)''"
  "norm_str ascii_lower (it_market_hash_name example_partial) = asc ''foo (field-tested) special''"
  "norm_str ascii_lower (it_market_hash_name example_exact_cheap) = asc ''foo (field-tested)''"
  "norm_str ascii_lower (it_market_hash_name example_bare) = asc ''foo''"
  by (simp_all add: example_defs match_defs str_defs Let_def)

text \<open>The specification's example: exact at 10.00, partial at 5.00, result 5.00.\<close>

theorem cheapest_candidate_wins_witness:
  "example_exact \<in> set [example_exact, example_partial] \<and>
   it_min_price example_exact = PyNum 10 \<and>
   norm_str ascii_lower (it_market_hash_name example_exact) =
     norm_str ascii_lower (Some example_target) \<and>
   example_partial \<in> set [example_exact, example_partial] \<and>
   it_min_price example_partial = PyNum 5 \<and>
   norm_str ascii_lower (it_market_hash_name example_partial) \<noteq>
     norm_str ascii_lower (Some example_target) \<and>
   norm_str ascii_lower (Some (simplify example_target)) \<noteq> [] \<and>
   contains (norm_str ascii_lower (it_market_hash_name example_partial))
     (norm_str ascii_lower (Some (simplify example_target))) \<and>
   (5 :: real) < 10 \<and>
   (\<exists>p. fst (skinport_find_min_price_usd ascii_lower [example_exact, example_partial]
               example_target True) = Some p \<and> p \<le> 5 \<and> p < 10) \<and>
   skinport_find_min_price_usd ascii_lower [example_exact, example_partial] example_target True =
     (Some 5, Some (asc ''partial match: foo (field-tested) special''))"
proof -
  have h1: "example_exact \<in> set [example_exact, example_partial]" by simp
  have h2: "it_min_price example_exact = PyNum 10" by (simp add: example_defs)
  have h3: "norm_str ascii_lower (it_market_hash_name example_exact) =
              norm_str ascii_lower (Some example_target)"
    by (simp only: example_norms)
  have h4: "example_partial \<in> set [example_exact, example_partial]" by simp
  have h5: "it_min_price example_partial = PyNum 5" by (simp add: example_defs)
  have h6: "norm_str ascii_lower (it_market_hash_name example_partial) \<noteq>
              norm_str ascii_lower (Some example_target)"
    by (simp add: example_norms asc_def)
  have h7: "norm_str ascii_lower (Some (simplify example_target)) \<noteq> []"
    by (simp add: example_norms asc_def)
  have h8: "contains (norm_str ascii_lower (it_market_hash_name example_partial))
              (norm_str ascii_lower (Some (simplify example_target)))"
    by (simp add: example_norms asc_def)
  have h9: "(5 :: real) < 10" by simp
  have run: "skinport_find_min_price_usd ascii_lower [example_exact, example_partial]
               example_target True =
             (Some 5, Some (asc ''partial match: foo (field-tested) special''))"
    by (simp add: find_defs example_defs match_defs str_defs Let_def)
  from cheapest_candidate_wins [OF h1 h2 h3 h4 h5 h6 h7 h8 h9, of True]
  have "\<exists>p. fst (skinport_find_min_price_usd ascii_lower [example_exact, example_partial]
               example_target True) = Some p \<and> p \<le> 5 \<and> p < 10"
    by blast
  with h1 h2 h3 h4 h5 h6 h7 h8 h9 run show ?thesis by blast
qed

text \<open>
  Claim C2 as stated fails when the catalog holds a third, still cheaper candidate. Here
  that candidate is a second exact match at 3.00: the catalog contains an exact match
  (10.00) and a strictly cheaper partial match (5.00), and the matcher returns 3.00, the
  price of an exact match, not the partial match's 5.00.
\<close>

theorem cheaper_exact_counterexample:
  "example_exact \<in> set [example_exact, example_partial, example_exact_cheap] \<and>
   it_min_price example_exact = PyNum 10 \<and>
   norm_str ascii_lower (it_market_hash_name example_exact) =
     norm_str ascii_lower (Some example_target) \<and>
   example_partial \<in> set [example_exact, example_partial, example_exact_cheap] \<and>
   it_min_price example_partial = PyNum 5 \<and>
   norm_str ascii_lower (it_market_hash_name example_partial) \<noteq>
     norm_str ascii_lower (Some example_target) \<and>
   contains (norm_str ascii_lower (it_market_hash_name example_partial))
     (norm_str ascii_lower (Some (simplify example_target))) \<and>
   (5 :: real) < 10 \<and>
   skinport_find_min_price_usd ascii_lower [example_exact, example_partial, example_exact_cheap]
     example_target True = (Some 3, Some (asc ''exact match: foo (field-tested)'')) \<and>
   fst (skinport_find_min_price_usd ascii_lower
     [example_exact, example_partial, example_exact_cheap] example_target True) \<noteq> Some 5"
proof -
  have "skinport_find_min_price_usd ascii_lower
          [example_exact, example_partial, example_exact_cheap] example_target True =
        (Some 3, Some (asc ''exact match: foo (field-tested)''))"
    by (simp add: find_defs example_defs match_defs str_defs Let_def)
  moreover have "it_min_price example_exact = PyNum 10" "it_min_price example_partial = PyNum 5"
    by (simp_all add: example_defs)
  moreover have "norm_str ascii_lower (it_market_hash_name example_exact) =
     norm_str ascii_lower (Some example_target)"
    by (simp only: example_norms)
  moreover have "norm_str ascii_lower (it_market_hash_name example_partial) \<noteq>
     norm_str ascii_lower (Some example_target)"
    by (simp add: example_norms asc_def)
  moreover have "contains (norm_str ascii_lower (it_market_hash_name example_partial))
     (norm_str ascii_lower (Some (simplify example_target)))"
    by (simp add: example_norms asc_def)
  ultimately show ?thesis by simp
qed

section \<open>Score of a partial match\<close>

text \<open>
  Claim C5, as the code has it. For a record with a numeric price whose normalized name
  \<open>mh\<close> differs from the normalized target and contains the non-empty simplified target
  \<open>ts\<close>, the loop appends a partial match whose score is 100 when \<open>mh\<close> equals \<open>ts\<close>, and
  otherwise 50 (if \<open>mh\<close> starts with \<open>ts\<close>) plus 30 minus half the absolute difference of
  the lengths of \<open>mh\<close> and \<open>ts\<close>, by integer division.
\<close>

theorem partial_match_score:
  assumes "it_min_price it = PyNum v"
    and "mh = norm_str lower (it_market_hash_name it)"
    and "mh \<noteq> target" and "ts \<noteq> []" and "contains mh ts"
  shows "match_item lower target ts it candidates =
           candidates @
           [(v, asc ''partial match: '' @ mh,
             if mh = ts then 100
             else (if startswith mh ts then 50 else 0) + 30 -
                  \<bar>int (length mh) - int (length ts)\<bar> div 2)]"
proof -
  have "match_score ts mh =
          (if mh = ts then 100
           else (if startswith mh ts then 50 else 0) + 30 -
                \<bar>int (length mh) - int (length ts)\<bar> div 2)"
    using assms(5) by (simp add: match_score_def Let_def)
  then show ?thesis
    using assms by (simp add: match_item_partial)
qed

text \<open>\<open>foo (field-tested) special\<close> against \<open>foo\<close>: 50 + 30 - 23 div 2 = 69.\<close>

theorem partial_match_score_witness:
  "it_min_price example_partial = PyNum 5 \<and>
   asc ''foo (field-tested) special'' = norm_str ascii_lower (it_market_hash_name example_partial) \<and>
   asc ''foo (field-tested) special'' \<noteq> asc ''foo (field-tested)'' \<and>
   asc ''foo'' \<noteq> [] \<and>
   contains (asc ''foo (field-tested) special'') (asc ''foo'') \<and>
   match_item ascii_lower (asc ''foo (field-tested)'') (asc ''foo'') example_partial [] =
     [(5, asc ''partial match: foo (field-tested) special'', 69)]"
proof -
  have h1: "it_min_price example_partial = PyNum 5" by (simp add: example_defs)
  have h2: "asc ''foo (field-tested) special'' =
              norm_str ascii_lower (it_market_hash_name example_partial)"
    by (simp only: example_norms)
  have h3: "asc ''foo (field-tested) special'' \<noteq> asc ''foo (field-tested)''"
    by (simp add: asc_def)
  have h4: "asc ''foo'' \<noteq> []" by (simp add: asc_def)
  have h5: "contains (asc ''foo (field-tested) special'') (asc ''foo'')" by (simp add: asc_def)
  have "match_item ascii_lower (asc ''foo (field-tested)'') (asc ''foo'') example_partial [] =
          [(5, asc ''partial match: foo (field-tested) special'', 69)]"
    using partial_match_score [OF h1 h2 h3 h4 h5, of "[]"] by (simp add: asc_def)
  with h1 h2 h3 h4 h5 show ?thesis by blast
qed

text \<open>
  Claim C5 as stated fails for a partial match whose normalized name is the simplified
  target itself: \<open>_match_score\<close> returns 100 at once, where the formula gives 80.
\<close>

theorem partial_score_equal_names_counterexample:
  "norm_str ascii_lower (it_market_hash_name example_bare) \<noteq>
     norm_str ascii_lower (Some example_target) \<and>
   contains (norm_str ascii_lower (it_market_hash_name example_bare))
     (norm_str ascii_lower (Some (simplify example_target))) \<and>
   startswith (norm_str ascii_lower (it_market_hash_name example_bare))
     (norm_str ascii_lower (Some (simplify example_target))) \<and>
   collect_candidates ascii_lower [example_bare] example_target =
     [(5, asc ''partial match: foo'', 100)] \<and>
   (100 :: int) \<noteq> 50 + 30 -
     \<bar>int (length (norm_str ascii_lower (it_market_hash_name example_bare))) -
      int (length (norm_str ascii_lower (Some (simplify example_target))))\<bar> div 2"
proof -
  have "collect_candidates ascii_lower [example_bare] example_target =
          [(5, asc ''partial match: foo'', 100)]"
    by (simp add: example_defs match_defs str_defs Let_def)
  then show ?thesis by (simp add: example_norms) (simp add: asc_def)
qed

section \<open>Debug reason\<close>

text \<open>No record qualifies exactly when each one lacks a numeric price or matches neither way.\<close>

lemma no_candidates_iff:
  "collect_candidates lower items mhn = [] \<longleftrightarrow>
     (\<forall>it \<in> set items.
        (\<forall>v. it_min_price it \<noteq> PyNum v) \<or>
        (norm_str lower (it_market_hash_name it) \<noteq> norm_str lower (Some mhn) \<and>
         \<not> (norm_str lower (Some (simplify mhn)) \<noteq> [] \<and>
            contains (norm_str lower (it_market_hash_name it))
              (norm_str lower (Some (simplify mhn))))))"
  unfolding collect_candidates_eq
  by (auto simp: match_item_def py_float_def Let_def split: pyval.splits)

text \<open>
  Claim C6, as the code has it. When no record qualifies, the result is an absent price
  with the reason \<open>no candidates\<close>, whatever the debug flag is. When some record
  qualifies, the price is the lowest candidate price whatever the flag is, and the reason
  is that candidate's with debug on and absent with debug off.
\<close>

theorem debug_off_reason:
  "(collect_candidates lower items mhn = [] \<longrightarrow>
      skinport_find_min_price_usd lower items mhn debug = (None, Some (asc ''no candidates''))) \<and>
   (collect_candidates lower items mhn \<noteq> [] \<longrightarrow>
      (\<exists>p r s. (p, r, s) \<in> set (collect_candidates lower items mhn) \<and>
         (\<forall>x \<in> set (collect_candidates lower items mhn). p \<le> fst x) \<and>
         skinport_find_min_price_usd lower items mhn False = (Some p, None) \<and>
         skinport_find_min_price_usd lower items mhn True = (Some p, Some r))) \<and>
   snd (skinport_find_min_price_usd lower items mhn False) =
     (if collect_candidates lower items mhn = [] then Some (asc ''no candidates'') else None) \<and>
   fst (skinport_find_min_price_usd lower items mhn False) =
     fst (skinport_find_min_price_usd lower items mhn True)"
proof -
  have empty: "collect_candidates lower items mhn = [] \<longrightarrow>
      skinport_find_min_price_usd lower items mhn debug = (None, Some (asc ''no candidates''))"
    by (simp add: skinport_find_min_price_usd_def)
  have some: "collect_candidates lower items mhn \<noteq> [] \<longrightarrow>
      (\<exists>p r s. (p, r, s) \<in> set (collect_candidates lower items mhn) \<and>
         (\<forall>x \<in> set (collect_candidates lower items mhn). p \<le> fst x) \<and>
         skinport_find_min_price_usd lower items mhn False = (Some p, None) \<and>
         skinport_find_min_price_usd lower items mhn True = (Some p, Some r))"
  proof
    assume "collect_candidates lower items mhn \<noteq> []"
    from find_price_least [OF this] obtain p r s where
      mem: "(p, r, s) \<in> set (collect_candidates lower items mhn)"
      and res: "\<forall>debug. skinport_find_min_price_usd lower items mhn debug =
                  (Some p, if debug then Some r else None)"
      and least: "\<forall>x \<in> set (collect_candidates lower items mhn). p \<le> fst x"
      by blast
    from res have "skinport_find_min_price_usd lower items mhn False = (Some p, None)"
      and "skinport_find_min_price_usd lower items mhn True = (Some p, Some r)"
      by simp_all
    with mem least show "\<exists>p r s. (p, r, s) \<in> set (collect_candidates lower items mhn) \<and>
         (\<forall>x \<in> set (collect_candidates lower items mhn). p \<le> fst x) \<and>
         skinport_find_min_price_usd lower items mhn False = (Some p, None) \<and>
         skinport_find_min_price_usd lower items mhn True = (Some p, Some r)"
      by blast
  qed
  have gate: "snd (skinport_find_min_price_usd lower items mhn False) =
     (if collect_candidates lower items mhn = [] then Some (asc ''no candidates'') else None) \<and>
   fst (skinport_find_min_price_usd lower items mhn False) =
     fst (skinport_find_min_price_usd lower items mhn True)"
    by (simp add: skinport_find_min_price_usd_def Let_def split: prod.split)
  from empty some gate show ?thesis by (intro conjI) simp_all
qed

text \<open>
  With the two-record catalog no record qualifies for the target \<open>Bar\<close>, and two qualify
  for \<open>Foo (Field-Tested)\<close>, where the reason is withheld without debug.
\<close>

theorem debug_off_reason_witness:
  "collect_candidates ascii_lower [example_exact, example_partial] (asc ''Bar'') = [] \<and>
   skinport_find_min_price_usd ascii_lower [example_exact, example_partial] (asc ''Bar'') True =
     (None, Some (asc ''no candidates'')) \<and>
   collect_candidates ascii_lower [example_exact, example_partial] example_target \<noteq> [] \<and>
   (\<exists>p r s. (p, r, s) \<in> set (collect_candidates ascii_lower [example_exact, example_partial]
                                example_target) \<and>
      skinport_find_min_price_usd ascii_lower [example_exact, example_partial]
        example_target False = (Some p, None) \<and>
      skinport_find_min_price_usd ascii_lower [example_exact, example_partial]
        example_target True = (Some p, Some r)) \<and>
   skinport_find_min_price_usd ascii_lower [example_exact, example_partial]
     example_target False = (Some 5, None)"
proof -
  have e: "collect_candidates ascii_lower [example_exact, example_partial] (asc ''Bar'') = []"
    by (simp add: example_defs match_defs str_defs Let_def)
  have c: "collect_candidates ascii_lower [example_exact, example_partial] example_target =
             [(10, asc ''exact match: foo (field-tested)'', 100),
              (5, asc ''partial match: foo (field-tested) special'', 69)]"
    by (simp add: example_defs match_defs str_defs Let_def)
  then have n: "collect_candidates ascii_lower [example_exact, example_partial] example_target \<noteq> []"
    by simp
  have t: "skinport_find_min_price_usd ascii_lower [example_exact, example_partial]
             example_target False = (Some 5, None)"
    by (simp add: find_defs example_defs match_defs str_defs Let_def)
  note a = debug_off_reason [of ascii_lower "[example_exact, example_partial]" "asc ''Bar''" True]
  note b = debug_off_reason [of ascii_lower "[example_exact, example_partial]" example_target False]
  have r1: "skinport_find_min_price_usd ascii_lower [example_exact, example_partial]
              (asc ''Bar'') True = (None, Some (asc ''no candidates''))"
    using conjunct1 [OF a] e by (rule mp)
  have r2: "\<exists>p r s. (p, r, s) \<in> set (collect_candidates ascii_lower
                [example_exact, example_partial] example_target) \<and>
      skinport_find_min_price_usd ascii_lower [example_exact, example_partial]
        example_target False = (Some p, None) \<and>
      skinport_find_min_price_usd ascii_lower [example_exact, example_partial]
        example_target True = (Some p, Some r)"
    using mp [OF conjunct1 [OF conjunct2 [OF b]] n] by blast
  from e r1 n r2 t show ?thesis by (intro conjI)
qed

text \<open>
  Claim C6 as stated fails in the no-candidates case: the empty catalog, debug off, and
  the reason is still returned.
\<close>

theorem debug_off_no_candidates_counterexample:
  "skinport_find_min_price_usd ascii_lower [] (asc ''Anything'') False =
     (None, Some (asc ''no candidates'')) \<and>
   snd (skinport_find_min_price_usd ascii_lower [] (asc ''Anything'') False) \<noteq> None"
  by (simp add: skinport_find_min_price_usd_def collect_candidates_def)

section \<open>Watchlist invariant\<close>

lemmas watch_defs = ensure_watchlist_def get_watchlist_def add_to_watchlist_def
  remove_from_watchlist_def add_pasted_names_def script_run_def watchlist_ok_def

lemma ensure_watchlist_Some:
  "watchlist st = Some wl \<Longrightarrow> ensure_watchlist st = st"
  by (simp add: ensure_watchlist_def)

lemma ensure_watchlist_ok:
  "watchlist_ok st \<Longrightarrow>
     \<exists>wl. watchlist (ensure_watchlist st) = Some wl \<and> distinct wl"
  by (cases "watchlist st") (simp_all add: ensure_watchlist_def watchlist_ok_def)

lemma add_to_watchlist_Some:
  "watchlist st = Some wl \<Longrightarrow>
     add_to_watchlist mh st =
       Inr (if mh \<noteq> [] \<and> mh \<notin> set wl then st\<lparr>watchlist := Some (wl @ [mh])\<rparr> else st)"
  by (simp add: add_to_watchlist_def ensure_watchlist_def get_watchlist_def)

lemma remove_from_watchlist_Some:
  "watchlist st = Some wl \<Longrightarrow>
     remove_from_watchlist mh st = Inr (st\<lparr>watchlist := Some (filter (\<lambda>x. x \<noteq> mh) wl)\<rparr>)"
  by (simp add: remove_from_watchlist_def ensure_watchlist_def get_watchlist_def)

lemma add_to_watchlist_ok:
  assumes "watchlist st = Some wl" "distinct wl"
  shows "\<exists>st' wl'. add_to_watchlist mh st = Inr st' \<and> watchlist st' = Some wl' \<and> distinct wl'"
  using assms by (simp add: add_to_watchlist_Some)

lemma remove_from_watchlist_ok:
  assumes "watchlist st = Some wl" "distinct wl"
  shows "\<exists>st' wl'. remove_from_watchlist mh st = Inr st' \<and> watchlist st' = Some wl' \<and> distinct wl'"
  using assms by (simp add: remove_from_watchlist_Some)

lemma add_pasted_loop_ok:
  assumes "watchlist st = Some wl" "distinct wl"
  shows "\<exists>st' wl'. add_pasted_loop lines st = Inr st' \<and> watchlist st' = Some wl' \<and> distinct wl'"
  using assms
proof (induction lines arbitrary: st wl)
  case Nil
  then show ?case by simp
next
  case (Cons mh lines)
  show ?case
  proof (cases "mh \<in> set wl")
    case True
    with Cons.prems have "add_pasted_loop (mh # lines) st = add_pasted_loop lines st"
      by (simp add: get_watchlist_def)
    with Cons.IH [OF Cons.prems] show ?thesis by simp
  next
    case False
    from add_to_watchlist_ok [OF Cons.prems, of mh] obtain st1 wl1 where
      a: "add_to_watchlist mh st = Inr st1" "watchlist st1 = Some wl1" "distinct wl1"
      by blast
    with False Cons.prems have "add_pasted_loop (mh # lines) st = add_pasted_loop lines st1"
      by (simp add: get_watchlist_def)
    with Cons.IH [OF a(2,3)] show ?thesis by simp
  qed
qed

lemma script_run_ok:
  assumes "watchlist_ok st"
  shows "\<exists>st' wl'. script_run ev st = Inr st' \<and> watchlist st' = Some wl' \<and> distinct wl'"
proof -
  from ensure_watchlist_ok [OF assms] obtain wl where
    e: "watchlist (ensure_watchlist st) = Some wl" "distinct wl" by blast
  show ?thesis
  proof (cases ev)
    case (ClickAdd mh)
    with add_to_watchlist_ok [OF e, of mh] show ?thesis by (simp add: script_run_def)
  next
    case (ClickRemove mh)
    with remove_from_watchlist_ok [OF e, of mh] show ?thesis by (simp add: script_run_def)
  next
    case (ClickAddPasted text_lines)
    with add_pasted_loop_ok [OF e] show ?thesis
      by (simp add: script_run_def add_pasted_names_def)
  qed
qed

lemma script_runs_ok:
  "watchlist_ok st \<Longrightarrow> \<exists>st'. script_runs evs st = Inr st' \<and> watchlist_ok st'"
proof (induction evs arbitrary: st)
  case Nil
  then show ?case by simp
next
  case (Cons ev evs)
  from script_run_ok [OF Cons.prems, of ev] obtain st1 wl1 where
    s: "script_run ev st = Inr st1" "watchlist st1 = Some wl1" "distinct wl1" by blast
  then have "watchlist_ok st1" by (simp add: watchlist_ok_def)
  from Cons.IH [OF this] s(1) show ?case by simp
qed

text \<open>
  Claim C10. Whatever the user does, starting from a session whose watchlist is missing or
  free of duplicates, no call fails and the watchlist stays free of duplicates. On an
  existing watchlist, adding an empty name or a name already present changes nothing, and
  adding the same name a second time changes nothing; an added name goes to the end and
  the other entries keep their places; removing a name leaves no occurrence of it, and the
  other entries keep their order.
\<close>

theorem watchlist_never_duplicates:
  assumes "watchlist_ok st0" and "watchlist st = Some wl"
  shows "(\<exists>st'. script_runs evs st0 = Inr st' \<and> watchlist_ok st') \<and>
         (mh = [] \<or> mh \<in> set wl \<longrightarrow> add_to_watchlist mh st = Inr st) \<and>
         (\<exists>st' wl'. add_to_watchlist mh st = Inr st' \<and> add_to_watchlist mh st' = Inr st' \<and>
            watchlist st' = Some wl' \<and> take (length wl) wl' = wl \<and>
            (\<forall>P. \<not> P mh \<longrightarrow> filter P wl' = filter P wl)) \<and>
         (\<exists>st' wl'. remove_from_watchlist mh st = Inr st' \<and> watchlist st' = Some wl' \<and>
            mh \<notin> set wl' \<and> (\<forall>P. \<not> P mh \<longrightarrow> filter P wl' = filter P wl))"
proof -
  have runs: "\<exists>st'. script_runs evs st0 = Inr st' \<and> watchlist_ok st'"
    using assms(1) by (rule script_runs_ok)
  have idem: "mh = [] \<or> mh \<in> set wl \<longrightarrow> add_to_watchlist mh st = Inr st"
    using assms(2) by (auto simp: add_to_watchlist_Some)
  have add: "\<exists>st' wl'. add_to_watchlist mh st = Inr st' \<and> add_to_watchlist mh st' = Inr st' \<and>
            watchlist st' = Some wl' \<and> take (length wl) wl' = wl \<and>
            (\<forall>P. \<not> P mh \<longrightarrow> filter P wl' = filter P wl)"
  proof (cases "mh \<noteq> [] \<and> mh \<notin> set wl")
    case True
    let ?st' = "st\<lparr>watchlist := Some (wl @ [mh])\<rparr>"
    have "add_to_watchlist mh st = Inr ?st'"
      using assms(2) True by (simp add: add_to_watchlist_Some)
    moreover have "add_to_watchlist mh ?st' = Inr ?st'"
      by (simp add: add_to_watchlist_Some [of ?st' "wl @ [mh]"])
    ultimately show ?thesis by simp
  next
    case False
    then have "add_to_watchlist mh st = Inr st"
      using assms(2) by (simp add: add_to_watchlist_Some)
    with assms(2) show ?thesis by simp
  qed
  have rem: "\<exists>st' wl'. remove_from_watchlist mh st = Inr st' \<and> watchlist st' = Some wl' \<and>
            mh \<notin> set wl' \<and> (\<forall>P. \<not> P mh \<longrightarrow> filter P wl' = filter P wl)"
  proof -
    have "\<forall>P. \<not> P mh \<longrightarrow> filter P (filter (\<lambda>x. x \<noteq> mh) wl) = filter P wl"
      by (auto intro: filter_cong)
    then show ?thesis
      using assms(2) by (simp add: remove_from_watchlist_Some)
  qed
  from runs idem add rem show ?thesis by blast
qed

text \<open>A fresh session and four interactions; and a watchlist of two names.\<close>

theorem watchlist_never_duplicates_witness:
  "watchlist_ok \<lparr>watchlist = None\<rparr> \<and>
   watchlist \<lparr>watchlist = Some [asc ''a'', asc ''b'']\<rparr> = Some [asc ''a'', asc ''b''] \<and>
   (\<exists>st'. script_runs [ClickAdd (asc ''a''), ClickAdd (asc ''a''),
                        ClickAddPasted [asc '' c '', asc ''  '', asc ''a''],
                        ClickRemove (asc ''a'')] \<lparr>watchlist = None\<rparr> = Inr st' \<and>
          watchlist_ok st') \<and>
   script_runs [ClickAdd (asc ''a''), ClickAdd (asc ''a''),
                ClickAddPasted [asc '' c '', asc ''  '', asc ''a''],
                ClickRemove (asc ''a'')] \<lparr>watchlist = None\<rparr> =
     Inr \<lparr>watchlist = Some [asc ''c'']\<rparr> \<and>
   add_to_watchlist (asc ''a'') \<lparr>watchlist = Some [asc ''a'', asc ''b'']\<rparr> =
     Inr \<lparr>watchlist = Some [asc ''a'', asc ''b'']\<rparr>"
proof -
  have h1: "watchlist_ok \<lparr>watchlist = None\<rparr>" by (simp add: watchlist_ok_def)
  have h2: "watchlist \<lparr>watchlist = Some [asc ''a'', asc ''b'']\<rparr> = Some [asc ''a'', asc ''b'']"
    by simp
  have run: "script_runs [ClickAdd (asc ''a''), ClickAdd (asc ''a''),
                ClickAddPasted [asc '' c '', asc ''  '', asc ''a''],
                ClickRemove (asc ''a'')] \<lparr>watchlist = None\<rparr> =
     Inr \<lparr>watchlist = Some [asc ''c'']\<rparr>"
    by (simp add: watch_defs asc_def strip_def lstrip_def rstrip_def is_space_def)
  note t = watchlist_never_duplicates [OF h1 h2,
    where evs = "[ClickAdd (asc ''a''), ClickAdd (asc ''a''),
                  ClickAddPasted [asc '' c '', asc ''  '', asc ''a''],
                  ClickRemove (asc ''a'')]" and mh = "asc ''a''"]
  have c1: "\<exists>st'. script_runs [ClickAdd (asc ''a''), ClickAdd (asc ''a''),
                        ClickAddPasted [asc '' c '', asc ''  '', asc ''a''],
                        ClickRemove (asc ''a'')] \<lparr>watchlist = None\<rparr> = Inr st' \<and>
          watchlist_ok st'"
    by (rule conjunct1 [OF t])
  have "asc ''a'' = [] \<or> asc ''a'' \<in> set [asc ''a'', asc ''b''] \<longrightarrow>
          add_to_watchlist (asc ''a'') \<lparr>watchlist = Some [asc ''a'', asc ''b'']\<rparr> =
            Inr \<lparr>watchlist = Some [asc ''a'', asc ''b'']\<rparr>"
    by (rule conjunct1 [OF conjunct2 [OF t]])
  then have c2: "add_to_watchlist (asc ''a'') \<lparr>watchlist = Some [asc ''a'', asc ''b'']\<rparr> =
            Inr \<lparr>watchlist = Some [asc ''a'', asc ''b'']\<rparr>"
    by simp
  from c1 c2 h1 h2 run show ?thesis by blast
qed

section \<open>One row per identifier\<close>

lemma run_check_loop_rows:
  "\<exists>new. fst (run_check_loop lower steam sp_items show_debug watch w rows_out) = rows_out @ new \<and>
     map row_market_hash_name new = watch \<and>
     map steam_usd new = steam_answers steam w watch \<and>
     map skinport_min_usd new =
       map (\<lambda>mh. fst (skinport_find_min_price_usd lower sp_items mh True)) watch \<and>
     (\<forall>r \<in> set new.
        spread_usd r = (case (steam_usd r, skinport_min_usd r) of
                          (Some a, Some b) \<Rightarrow> Some (a - b) | _ \<Rightarrow> None))"
proof (induction watch arbitrary: w rows_out)
  case Nil
  show ?case by simp
next
  case (Cons mh watch)
  obtain sp_price reason where
    sp: "skinport_find_min_price_usd lower sp_items mh True = (sp_price, reason)"
    by (cases "skinport_find_min_price_usd lower sp_items mh True") auto
  obtain steam_price w' where stm: "steam w mh = (steam_price, w')"
    by (cases "steam w mh") auto
  define r where "r = \<lparr>row_base_name = base_name (parse_market_hash_name mh),
      row_wear = wear (parse_market_hash_name mh),
      row_stattrak = is_stattrak (parse_market_hash_name mh), row_market_hash_name = mh,
      steam_usd = steam_price, skinport_min_usd = sp_price,
      spread_usd = (case (steam_price, sp_price) of (Some a, Some b) \<Rightarrow> Some (a - b) | _ \<Rightarrow> None),
      match_debug = (if show_debug then Some reason else None)\<rparr>"
  have step: "run_check_loop lower steam sp_items show_debug (mh # watch) w rows_out =
          run_check_loop lower steam sp_items show_debug watch w' (rows_out @ [r])"
    by (simp add: sp stm r_def Let_def)
  from Cons.IH [of w' "rows_out @ [r]"] obtain new where
    new: "fst (run_check_loop lower steam sp_items show_debug watch w' (rows_out @ [r])) =
            (rows_out @ [r]) @ new"
      "map row_market_hash_name new = watch"
      "map steam_usd new = steam_answers steam w' watch"
      "map skinport_min_usd new =
         map (\<lambda>mh. fst (skinport_find_min_price_usd lower sp_items mh True)) watch"
      "\<forall>r \<in> set new.
        spread_usd r = (case (steam_usd r, skinport_min_usd r) of
                          (Some a, Some b) \<Rightarrow> Some (a - b) | _ \<Rightarrow> None)"
    by blast
  have rf: "row_market_hash_name r = mh" "steam_usd r = steam_price"
      "skinport_min_usd r = sp_price"
      "spread_usd r = (case (steam_price, sp_price) of
                         (Some a, Some b) \<Rightarrow> Some (a - b) | _ \<Rightarrow> None)"
    by (simp_all add: r_def)
  have "fst (run_check_loop lower steam sp_items show_debug (mh # watch) w rows_out) =
          rows_out @ (r # new)"
    using step new(1) by simp
  moreover have "map row_market_hash_name (r # new) = mh # watch"
    using new(2) rf(1) by simp
  moreover have "map steam_usd (r # new) = steam_answers steam w (mh # watch)"
    using new(3) stm rf(2) by simp
  moreover have "map skinport_min_usd (r # new) =
         map (\<lambda>mh. fst (skinport_find_min_price_usd lower sp_items mh True)) (mh # watch)"
    using new(4) sp rf(3) by simp
  moreover have "\<forall>r \<in> set (r # new).
        spread_usd r = (case (steam_usd r, skinport_min_usd r) of
                          (Some a, Some b) \<Rightarrow> Some (a - b) | _ \<Rightarrow> None)"
    using new(5) rf(2-4) by (simp split: option.split)
  ultimately show ?case
    by - (rule exI [of _ "r # new"], intro conjI, assumption+)
qed

text \<open>
  Claim C9. For every sequence of identifiers, every catalog and every behaviour of the
  price service, the loop returns as many rows as identifiers, the i-th row for the i-th
  identifier, holding what the price service answered to the i-th call and what the
  matcher found for that identifier. In every row the spread is the difference of the two
  prices when both are present, and absent otherwise. When both sources fail for an
  identifier, its row is there all the same, with both prices and the spread absent.
\<close>

theorem one_row_per_identifier:
  "length (fst (run_check_loop lower steam sp_items show_debug watch w [])) = length watch \<and>
   map row_market_hash_name (fst (run_check_loop lower steam sp_items show_debug watch w [])) = watch \<and>
   map steam_usd (fst (run_check_loop lower steam sp_items show_debug watch w [])) =
     steam_answers steam w watch \<and>
   map skinport_min_usd (fst (run_check_loop lower steam sp_items show_debug watch w [])) =
     map (\<lambda>mh. fst (skinport_find_min_price_usd lower sp_items mh True)) watch \<and>
   (\<forall>r \<in> set (fst (run_check_loop lower steam sp_items show_debug watch w [])).
      spread_usd r = (case (steam_usd r, skinport_min_usd r) of
                        (Some a, Some b) \<Rightarrow> Some (a - b) | _ \<Rightarrow> None)) \<and>
   (\<forall>i < length watch.
      steam_answers steam w watch ! i = None \<and>
      fst (skinport_find_min_price_usd lower sp_items (watch ! i) True) = None \<longrightarrow>
        row_market_hash_name (fst (run_check_loop lower steam sp_items show_debug watch w []) ! i) =
          watch ! i \<and>
        steam_usd (fst (run_check_loop lower steam sp_items show_debug watch w []) ! i) = None \<and>
        skinport_min_usd (fst (run_check_loop lower steam sp_items show_debug watch w []) ! i) = None \<and>
        spread_usd (fst (run_check_loop lower steam sp_items show_debug watch w []) ! i) = None)"
proof -
  from run_check_loop_rows [of lower steam sp_items show_debug watch w "[]"]
  obtain new where
    new: "fst (run_check_loop lower steam sp_items show_debug watch w []) = new"
      "map row_market_hash_name new = watch"
      "map steam_usd new = steam_answers steam w watch"
      "map skinport_min_usd new =
         map (\<lambda>mh. fst (skinport_find_min_price_usd lower sp_items mh True)) watch"
      "\<forall>r \<in> set new.
        spread_usd r = (case (steam_usd r, skinport_min_usd r) of
                          (Some a, Some b) \<Rightarrow> Some (a - b) | _ \<Rightarrow> None)"
    by auto
  have len: "length new = length watch"
    using new(2) by (metis length_map)
  have fail: "\<forall>i < length watch.
      steam_answers steam w watch ! i = None \<and>
      fst (skinport_find_min_price_usd lower sp_items (watch ! i) True) = None \<longrightarrow>
        row_market_hash_name (new ! i) = watch ! i \<and> steam_usd (new ! i) = None \<and>
        skinport_min_usd (new ! i) = None \<and> spread_usd (new ! i) = None"
  proof (intro allI impI)
    fix i
    assume i: "i < length watch"
      and a: "steam_answers steam w watch ! i = None \<and>
              fst (skinport_find_min_price_usd lower sp_items (watch ! i) True) = None"
    from i len have il: "i < length new" by simp
    have n: "row_market_hash_name (new ! i) = watch ! i"
      using new(2) il by (metis nth_map)
    have s: "steam_usd (new ! i) = steam_answers steam w watch ! i"
      using new(3) il by (metis nth_map)
    have k: "skinport_min_usd (new ! i) =
               fst (skinport_find_min_price_usd lower sp_items (watch ! i) True)"
      using new(4) il i by (metis nth_map)
    from il new(5) have "spread_usd (new ! i) =
        (case (steam_usd (new ! i), skinport_min_usd (new ! i)) of
           (Some a, Some b) \<Rightarrow> Some (a - b) | _ \<Rightarrow> None)"
      by simp
    with n s k a show "row_market_hash_name (new ! i) = watch ! i \<and> steam_usd (new ! i) = None \<and>
        skinport_min_usd (new ! i) = None \<and> spread_usd (new ! i) = None"
      by simp
  qed
  show ?thesis unfolding new(1) using new(2-5) len fail by blast
qed

text \<open>Two identifiers; the second one is priced by neither source.\<close>

theorem one_row_per_identifier_witness:
  "(1 :: nat) < length [example_target, asc ''Bar''] \<and>
   steam_answers (\<lambda>(w :: nat) mh. (if w = 0 then Some 12 else None, Suc w)) 0
     [example_target, asc ''Bar''] ! 1 = None \<and>
   fst (skinport_find_min_price_usd ascii_lower [example_exact, example_partial]
          ([example_target, asc ''Bar''] ! 1) True) = None \<and>
   length (fst (run_check_loop ascii_lower
      (\<lambda>(w :: nat) mh. (if w = 0 then Some 12 else None, Suc w))
      [example_exact, example_partial] True [example_target, asc ''Bar''] 0 [])) = 2 \<and>
   steam_usd (fst (run_check_loop ascii_lower
      (\<lambda>(w :: nat) mh. (if w = 0 then Some 12 else None, Suc w))
      [example_exact, example_partial] True [example_target, asc ''Bar''] 0 []) ! 1) = None \<and>
   skinport_min_usd (fst (run_check_loop ascii_lower
      (\<lambda>(w :: nat) mh. (if w = 0 then Some 12 else None, Suc w))
      [example_exact, example_partial] True [example_target, asc ''Bar''] 0 []) ! 1) = None \<and>
   spread_usd (fst (run_check_loop ascii_lower
      (\<lambda>(w :: nat) mh. (if w = 0 then Some 12 else None, Suc w))
      [example_exact, example_partial] True [example_target, asc ''Bar''] 0 []) ! 1) = None"
proof -
  let ?steam = "\<lambda>(w :: nat) (mh :: ustr). (if w = 0 then Some (12 :: real) else None, Suc w)"
  let ?watch = "[example_target, asc ''Bar'']"
  let ?items = "[example_exact, example_partial]"
  have h0: "(1 :: nat) < length ?watch" by simp
  have h1: "steam_answers ?steam 0 ?watch ! 1 = None" by simp
  have h2: "fst (skinport_find_min_price_usd ascii_lower ?items (?watch ! 1) True) = None"
    by (simp add: find_defs example_defs match_defs str_defs Let_def)
  note t = one_row_per_identifier [where lower = ascii_lower and steam = ?steam
      and sp_items = ?items and show_debug = True and watch = ?watch and w = 0]
  have len: "length (fst (run_check_loop ascii_lower ?steam ?items True ?watch 0 [])) = 2"
    using conjunct1 [OF t] by simp
  have "\<forall>i < length ?watch.
      steam_answers ?steam 0 ?watch ! i = None \<and>
      fst (skinport_find_min_price_usd ascii_lower ?items (?watch ! i) True) = None \<longrightarrow>
        row_market_hash_name (fst (run_check_loop ascii_lower ?steam ?items True ?watch 0 []) ! i) =
          ?watch ! i \<and>
        steam_usd (fst (run_check_loop ascii_lower ?steam ?items True ?watch 0 []) ! i) = None \<and>
        skinport_min_usd (fst (run_check_loop ascii_lower ?steam ?items True ?watch 0 []) ! i) = None \<and>
        spread_usd (fst (run_check_loop ascii_lower ?steam ?items True ?watch 0 []) ! i) = None"
    using t by (elim conjE)
  from this [rule_format, OF h0 conjI [OF h1 h2]] h0 h1 h2 len show ?thesis by blast
qed

text \<open>A run where the first identifier is priced by both sources and the second by none.\<close>

lemma run_check_example:
  "run_check_loop ascii_lower (\<lambda>(w :: nat) mh. (if w = 0 then Some 12 else None, Suc w))
     [example_exact, example_partial] True [example_target, asc ''Bar''] 0 [] =
   ([\<lparr>row_base_name = asc ''Foo'', row_wear = Some (asc ''Field-Tested''), row_stattrak = False,
      row_market_hash_name = example_target, steam_usd = Some 12, skinport_min_usd = Some 5,
      spread_usd = Some 7,
      match_debug = Some (Some (asc ''partial match: foo (field-tested) special''))\<rparr>,
     \<lparr>row_base_name = asc ''Bar'', row_wear = None, row_stattrak = False,
      row_market_hash_name = asc ''Bar'', steam_usd = None, skinport_min_usd = None,
      spread_usd = None, match_debug = Some (Some (asc ''no candidates''))\<rparr>], 2)"
  by (simp add: find_defs example_defs match_defs str_defs parse_defs Let_def)

end
